theory Spec2Isabelle
  imports Main
begin

section \<open>Python strings\<close>

text \<open>
  A Python \<open>str\<close> is a sequence of Unicode code points; it is modelled as the list of
  these code points, so that \<open>len\<close>, slicing and \<open>split\<close> count what Python counts.
  \<open>str\<close> turns an ASCII literal of the source into that representation.
\<close>

type_synonym pystr = "nat list"

definition str :: "string \<Rightarrow> pystr" where
  "str s = map of_char s"

datatype py_error = ValueError | IndexError | KeyError

text \<open>
  \<open>s.find(sub)\<close>: the least index at which \<open>sub\<close> occurs in \<open>s\<close>, \<open>None\<close> for
  Python's \<open>-1\<close>. \<open>sub in s\<close> is the same search.
\<close>

fun find_sub :: "'a list \<Rightarrow> 'a list \<Rightarrow> nat option" where
  "find_sub sub [] = (if sub = [] then Some 0 else None)"
| "find_sub sub (c # cs) =
     (if take (length sub) (c # cs) = sub then Some 0
      else map_option Suc (find_sub sub cs))"

definition contains :: "'a list \<Rightarrow> 'a list \<Rightarrow> bool" where
  "contains sub s = (find_sub sub s \<noteq> None)"

lemma find_sub_bound: "find_sub sub s = Some i \<Longrightarrow> i + length sub \<le> length s"
proof (induction s arbitrary: i)
  case Nil
  then show ?case by (simp split: if_splits)
next
  case (Cons c cs)
  show ?case
  proof (cases "take (length sub) (c # cs) = sub")
    case True
    then have "length (take (length sub) (c # cs)) = length sub" by simp
    then have "length sub \<le> length (c # cs)" by (simp del: take_Suc_Cons)
    with Cons.prems True show ?thesis by simp
  next
    case False
    with Cons.prems obtain j where "find_sub sub cs = Some j" "i = Suc j" by auto
    with Cons.IH show ?thesis by simp
  qed
qed

text \<open>
  \<open>s.split(sep)\<close> for a non-empty separator: cut at the first occurrence, continue
  behind it. The pieces of an empty separator are never asked for: \<open>py_split\<close> raises
  \<open>ValueError\<close> there, as Python does.
\<close>

function split_on :: "'a list \<Rightarrow> 'a list \<Rightarrow> 'a list list" where
  "split_on sep s =
     (case find_sub sep s of
        None \<Rightarrow> [s]
      | Some i \<Rightarrow>
          if sep = [] then [s]
          else take i s # split_on sep (drop (i + length sep) s))"
  by pat_completeness auto
termination
proof (relation "measure (\<lambda>(sep, s). length s)")
  show "wf (measure (\<lambda>(sep, s). length s))" by simp
next
  fix sep s :: "'a list" and i
  assume "find_sub sep s = Some i" "sep \<noteq> []"
  then have "i + length sep \<le> length s" "0 < length sep"
    by (simp_all add: find_sub_bound)
  then show "((sep, drop (i + length sep) s), (sep, s)) \<in> measure (\<lambda>(sep, s). length s)"
    by (cases sep) auto
qed

definition py_split :: "'a list \<Rightarrow> 'a list \<Rightarrow> py_error + 'a list list" where
  "py_split s sep = (if sep = [] then Inl ValueError else Inr (split_on sep s))"

definition py_index :: "'a list \<Rightarrow> nat \<Rightarrow> py_error + 'a" where
  "py_index xs i = (if i < length xs then Inr (xs ! i) else Inl IndexError)"

text \<open>\<open>s.split(sep)[i]\<close>, with both ways it can raise.\<close>

definition split_item :: "'a list \<Rightarrow> 'a list \<Rightarrow> nat \<Rightarrow> py_error + 'a list" where
  "split_item s sep i =
     (case py_split s sep of Inl e \<Rightarrow> Inl e | Inr parts \<Rightarrow> py_index parts i)"

text \<open>
  The code points that Python's \<open>str.split()\<close>, \<open>str.strip()\<close> and \<open>str.isspace()\<close> take
  as whitespace.
\<close>

definition isspace :: "nat \<Rightarrow> bool" where
  "isspace c \<longleftrightarrow>
     (9 \<le> c \<and> c \<le> 13) \<or> (28 \<le> c \<and> c \<le> 32) \<or> c = 133 \<or> c = 160 \<or> c = 5760 \<or>
     (8192 \<le> c \<and> c \<le> 8202) \<or> c = 8232 \<or> c = 8233 \<or> c = 8239 \<or> c = 8287 \<or> c = 12288"

text \<open>
  \<open>s.split()\<close> without an argument: skip whitespace, take the characters up to the next
  whitespace as a word, and go on behind it.
\<close>

function py_split_ws :: "pystr \<Rightarrow> pystr list" where
  "py_split_ws s =
     (case dropWhile isspace s of
        [] \<Rightarrow> []
      | c # cs \<Rightarrow>
          (c # takeWhile (\<lambda>x. \<not> isspace x) cs) # py_split_ws (dropWhile (\<lambda>x. \<not> isspace x) cs))"
  by pat_completeness auto
termination
proof (relation "measure length")
  show "wf (measure length)" by simp
next
  fix s :: pystr and c cs
  assume a: "dropWhile isspace s = c # cs"
  have "length (dropWhile (\<lambda>x. \<not> isspace x) cs) \<le> length cs" by (rule length_dropWhile_le)
  also have "length cs < length (dropWhile isspace s)" by (simp add: a)
  also have "length (dropWhile isspace s) \<le> length s" by (rule length_dropWhile_le)
  finally show "(dropWhile (\<lambda>x. \<not> isspace x) cs, s) \<in> measure length" by simp
qed

text \<open>\<open>s.strip()\<close>, and \<open>s.count(c)\<close> for a string \<open>c\<close> of one character.\<close>

definition py_strip :: "pystr \<Rightarrow> pystr" where
  "py_strip s = rev (dropWhile isspace (rev (dropWhile isspace s)))"

definition py_count :: "pystr \<Rightarrow> nat \<Rightarrow> nat" where
  "py_count s c = length (filter (\<lambda>x. x = c) s)"

text \<open>\<open>sep.join(xs)\<close>.\<close>

fun py_join :: "'a list \<Rightarrow> 'a list list \<Rightarrow> 'a list" where
  "py_join sep [] = []"
| "py_join sep [x] = x"
| "py_join sep (x # y # ys) = x @ sep @ py_join sep (y # ys)"

section \<open>The data of app.py\<close>

text \<open>
  A \<open>Document\<close> of the library: its text and its metadata, a dictionary kept as the list
  of its items. \<open>session_state\<close> holds the keys of \<open>st.session_state\<close> that app.py
  initialises.
\<close>

datatype meta_value = MStr pystr | MBool bool | MInt int

record document =
  page_content :: pystr
  metadata :: "(pystr \<times> meta_value) list"

record session_state =
  summary_result :: pystr
  documents :: "document list option"
  content_loaded :: bool
  input_type :: "pystr option"
  selected_method :: pystr
  selected_model :: pystr

text \<open>
  The catalogue of models. The entries' keys \<open>"id"\<close> and \<open>"context"\<close> are the fields
  \<open>id_str\<close> and \<open>context_size\<close>. The dictionary is kept as the list of its items in the
  order of the source; \<open>production_models\<close> and \<open>preview_models\<close> are the lists that the
  sidebar offers as buttons.
\<close>

record model_config =
  id_str :: pystr
  context_size :: pystr
  description :: pystr
  category :: pystr
  speed :: pystr
  cost :: pystr

definition GROQ_MODELS :: "(pystr \<times> model_config) list" where
  "GROQ_MODELS =
   [
    ([128640] @ str '' Llama 3.1 8B (Fast)'',
      \<lparr>id_str = str ''llama-3.1-8b-instant'',
       context_size = str ''131K'',
       description = str ''Fast and efficient, great for quick summaries'',
       category = str ''production'',
       speed = [9889] @ str '' Ultra-fast'',
       cost = [128176] @ str '' Low''\<rparr>),
    ([129504] @ str '' Llama 3.3 70B (Smart)'',
      \<lparr>id_str = str ''llama-3.3-70b-versatile'',
       context_size = str ''131K'',
       description = str ''Larger model for better quality and reasoning'',
       category = str ''production'',
       speed = [9889] @ str '' Fast'',
       cost = [128176] @ str '' Medium''\<rparr>),
    ([128293] @ str '' GPT-OSS 120B (Premium)'',
      \<lparr>id_str = str ''openai/gpt-oss-120b'',
       context_size = str ''131K'',
       description = str ''OpenAI'' @ [39] @ str ''s flagship open model with reasoning'',
       category = str ''production'',
       speed = [9889] @ str '' Fast'',
       cost = [128176] @ str '' High''\<rparr>),
    ([11088] @ str '' GPT-OSS 20B (Balanced)'',
      \<lparr>id_str = str ''openai/gpt-oss-20b'',
       context_size = str ''131K'',
       description = str ''Balanced performance and efficiency'',
       category = str ''production'',
       speed = [9889] @ str '' Very Fast'',
       cost = [128176] @ str '' Medium''\<rparr>),
    ([128300] @ str '' Llama 4 Maverick 17B'',
      \<lparr>id_str = str ''meta-llama/llama-4-maverick-17b-128e-instruct'',
       context_size = str ''131K'',
       description = str ''Experimental Llama 4 preview model'',
       category = str ''preview'',
       speed = [9889] @ str '' Fast'',
       cost = [128176] @ str '' Medium''\<rparr>),
    ([128737, 65039] @ str '' Llama 4 Scout 17B'',
      \<lparr>id_str = str ''meta-llama/llama-4-scout-17b-16e-instruct'',
       context_size = str ''131K'',
       description = str ''Advanced reasoning and analysis'',
       category = str ''preview'',
       speed = [9889] @ str '' Fast'',
       cost = [128176] @ str '' Medium''\<rparr>),
    ([127769] @ str '' Kimi K2 Instruct'',
      \<lparr>id_str = str ''moonshotai/kimi-k2-instruct-0905'',
       context_size = str ''262K'',
       description = str ''Ultra-long context window for large documents'',
       category = str ''preview'',
       speed = [9889] @ str '' Medium'',
       cost = [128176] @ str '' High''\<rparr>),
    ([129302] @ str '' Qwen3 32B'',
      \<lparr>id_str = str ''qwen/qwen3-32b'',
       context_size = str ''131K'',
       description = str ''Alibaba'' @ [39] @ str ''s advanced multilingual model'',
       category = str ''preview'',
       speed = [9889] @ str '' Fast'',
       cost = [128176] @ str '' Medium''\<rparr>)
   ]"

definition production_models :: "pystr list" where
  "production_models =
     map fst (filter (\<lambda>(k, v). category v = str ''production'') GROQ_MODELS)"

definition preview_models :: "pystr list" where
  "preview_models =
     map fst (filter (\<lambda>(k, v). category v = str ''preview'') GROQ_MODELS)"

text \<open>The session state after the initialisation at the top of the script.\<close>

definition initial_session_state :: session_state where
  "initial_session_state =
     \<lparr>summary_result = [], documents = None, content_loaded = False, input_type = None,
      selected_method = [128196] @ str '' PDF Document'',
      selected_model = [128640] @ str '' Llama 3.1 8B (Fast)''\<rparr>"

text \<open>The arguments that \<open>get_llm\<close> passes to \<open>ChatGroq\<close>.\<close>

record chat_groq =
  temperature :: int
  model :: pystr
  max_tokens :: "nat option"
  timeout :: "nat option"
  max_retries :: nat

text \<open>The numbers that the analytics tab shows.\<close>

record analytics =
  word_count :: nat
  char_count :: nat
  reading_time :: nat
  sentences :: nat
  paragraphs :: nat

text \<open>
  The external calls of a run are recorded in the order they are made: a call of the
  splitter's \<open>split_documents\<close>, a call of \<open>chain.invoke\<close> with its input documents, and
  what is shown to the user. The chain is the library's "stuff" chain over the language
  model: \<open>Inr\<close> its \<open>output_text\<close>, \<open>Inl\<close> the message of the exception it raised. The
  splitter's operation and the chain are parameters of the model.
\<close>

datatype event =
  SplitDocuments "document list"
| ChainInvoke "document list"
| StError pystr
| StMarkdown pystr

section \<open>get_llm\<close>

text \<open>
  \<open>GROQ_MODELS[st.session_state.selected_model]\<close> raises \<open>KeyError\<close> for a name that is
  not a key of the catalogue.
\<close>

definition get_llm :: "session_state \<Rightarrow> py_error + chat_groq" where
  "get_llm st =
     (case map_of GROQ_MODELS (selected_model st) of
        None \<Rightarrow> Inl KeyError
      | Some model_config \<Rightarrow>
          Inr \<lparr>temperature = 0, model = id_str model_config, max_tokens = None,
               timeout = None, max_retries = 2\<rparr>)"

section \<open>extract_video_id\<close>

text \<open>
  \<^verbatim>\<open>youtube_url.split("youtu.be/")[1].split("?")[0]\<close> and
  \<^verbatim>\<open>youtube_url.split("watch?v=")[1].split("&")[0]\<close>, the two return expressions.
\<close>

definition short_form_id :: "pystr \<Rightarrow> py_error + pystr" where
  "short_form_id youtube_url =
     (case split_item youtube_url (str ''youtu.be/'') 1 of
        Inl e \<Rightarrow> Inl e
      | Inr rest \<Rightarrow> split_item rest (str ''?'') 0)"

definition watch_form_id :: "pystr \<Rightarrow> py_error + pystr" where
  "watch_form_id youtube_url =
     (case split_item youtube_url (str ''watch?v='') 1 of
        Inl e \<Rightarrow> Inl e
      | Inr rest \<Rightarrow> split_item rest (str ''&'') 0)"

definition extract_video_id :: "pystr \<Rightarrow> py_error + pystr option" where
  "extract_video_id youtube_url =
     (if contains (str ''youtu.be/'') youtube_url then
        (case short_form_id youtube_url of Inl e \<Rightarrow> Inl e | Inr v \<Rightarrow> Inr (Some v))
      else if contains (str ''watch?v='') youtube_url then
        (case watch_form_id youtube_url of Inl e \<Rightarrow> Inl e | Inr v \<Rightarrow> Inr (Some v))
      else Inr None)"

section \<open>The loaders\<close>

text \<open>
  The files of the machine are a map from paths to contents. \<open>load_pdf_documents\<close> takes
  the path that \<open>NamedTemporaryFile\<close> chooses and the library's
  \<open>PyPDFLoader(path).load()\<close> as parameters: the loader reads the files and returns the
  pages, or raises (\<open>Inl\<close> the message).
\<close>

type_synonym files = "pystr \<rightharpoonup> nat list"

definition load_pdf_documents ::
  "(files \<Rightarrow> pystr \<Rightarrow> pystr + document list) \<Rightarrow> pystr \<Rightarrow> nat list \<Rightarrow> files
     \<Rightarrow> (document list option \<times> event list) \<times> files" where
  "load_pdf_documents pdf_load tmp_file_path uploaded_value fs =
     (let fs_written = fs(tmp_file_path \<mapsto> uploaded_value) in
      case pdf_load fs_written tmp_file_path of
        Inr loaded \<Rightarrow> ((Some loaded, []), fs_written(tmp_file_path := None))
      | Inl e \<Rightarrow> ((None, [StError (str ''Error loading PDF: '' @ e)]), fs_written))"

text \<open>\<open>str(e)\<close> for the exceptions of the string operations.\<close>

fun error_message :: "py_error \<Rightarrow> pystr" where
  "error_message ValueError = str ''empty separator''"
| "error_message IndexError = str ''list index out of range''"
| "error_message KeyError = str ''KeyError''"

record fetched_transcript =
  snippets :: "pystr list"
  language :: pystr
  language_code :: pystr
  is_generated :: bool

definition no_captions_head :: pystr where
  "no_captions_head =
     [10] @
     str ''                <div class='' @
     [34] @
     str ''status-error'' @
     [34] @
     str ''>'' @
     [10] @
     str ''                    <span style='' @
     [34] @
     str ''font-size: 1.2rem;'' @
     [34] @
     str ''>'' @
     [10060] @
     str ''</span>'' @
     [10] @
     str ''                    <div>'' @
     [10] @
     str ''                        <strong>Could not fetch YouTube transcript</strong><br>'' @
     [10] @
     str ''                        This could be due to:<br>'' @
     [10] @
     str ''                        '' @
     [8226] @
     str '' Video has no subtitles/captions<br>'' @
     [10] @
     str ''                        '' @
     [8226] @
     str '' Subtitles are disabled<br>'' @
     [10] @
     str ''                        '' @
     [8226] @
     str '' Video is private or restricted<br>'' @
     [10] @
     str ''                        '' @
     [8226] @
     str '' Geographic restrictions<br><br>'' @
     [10] @
     str ''                        <small>Primary: ''"

definition no_captions_tail :: pystr where
  "no_captions_tail =
     str ''...</small>'' @
     [10] @
     str ''                    </div>'' @
     [10] @
     str ''                </div>'' @
     [10] @
     str ''                ''"

text \<open>
  \<open>load_youtube_documents\<close>, with the flag \<open>YOUTUBE_AVAILABLE\<close>, the library's
  \<open>YouTubeTranscriptApi().fetch\<close> and the fallback
  \<open>YoutubeLoader.from_youtube_url(url, add_video_info=True).load()\<close> as parameters.
\<close>

definition load_youtube_documents ::
  "bool \<Rightarrow> (pystr \<Rightarrow> pystr + fetched_transcript) \<Rightarrow> (pystr \<Rightarrow> pystr + document list) \<Rightarrow> pystr
     \<Rightarrow> document list option \<times> event list" where
  "load_youtube_documents youtube_available fetch fallback_load youtube_url =
     (if \<not> youtube_available then
        (None, [StError (str ''YouTube transcript functionality not available. Please install: pip install youtube-transcript-api'')])
      else
        (case extract_video_id youtube_url of
           Inl e \<Rightarrow> (None, [StError (str ''Error loading YouTube video: '' @ error_message e)])
         | Inr None \<Rightarrow> (None, [StError (str ''Invalid YouTube URL format'')])
         | Inr (Some video_id) \<Rightarrow>
             if video_id = [] then (None, [StError (str ''Invalid YouTube URL format'')])
             else
               (case fetch video_id of
                  Inr fetched \<Rightarrow>
                    (Some [\<lparr>page_content = py_join [32] (snippets fetched),
                            metadata =
                              [(str ''source'', MStr youtube_url),
                               (str ''video_id'', MStr video_id),
                               (str ''language'', MStr (language fetched)),
                               (str ''language_code'', MStr (language_code fetched)),
                               (str ''is_generated'', MBool (is_generated fetched))]\<rparr>], [])
                | Inl e \<Rightarrow>
                    (case fallback_load youtube_url of
                       Inr loaded \<Rightarrow> (Some loaded, [])
                     | Inl fallback_error \<Rightarrow>
                         (None,
                          [StMarkdown (no_captions_head @ take 100 e @ str ''... | Fallback: ''
                             @ take 100 fallback_error @ no_captions_tail)])))))"

section \<open>The text splitter\<close>

text \<open>
  Modelled from the spec: the Chunker of section 4.2. app.py builds it as
  \<^verbatim>\<open>CharacterTextSplitter(chunk_size=4000, chunk_overlap=200, separator="\n")\<close>, a
  class of the LangChain library whose code is not part of the repository. The spec
  fixes the parameters, the newline boundary and the oversized window for a unit that
  cannot be split; the steps below are the ones of the library's \<open>split_text\<close>,
  \<open>_join_docs\<close> and \<open>_merge_splits\<close> with its defaults (separators are not kept, every
  window is stripped of surrounding whitespace, lengths are counted with \<open>len\<close>).
  \<open>total_len\<close> is the loop's \<open>total\<close>.
\<close>

record text_splitter =
  chunk_size :: nat
  chunk_overlap :: nat
  separator :: pystr

definition join_docs :: "pystr \<Rightarrow> pystr list \<Rightarrow> pystr option" where
  "join_docs sep docs =
     (let text = py_strip (py_join sep docs) in if text = [] then None else Some text)"

text \<open>
  The condition and the body of the inner \<open>while\<close> loop, which drops pieces from the
  front of \<open>current_doc\<close> until what is left fits the overlap and leaves room for the
  next piece. The loop's \<open>total\<close> is the length of the joined \<open>current_doc\<close>, so with an
  empty \<open>current_doc\<close> it is 0, the condition is false and the loop ends there.
\<close>

definition pop_more :: "text_splitter \<Rightarrow> nat \<Rightarrow> pystr list \<Rightarrow> int \<Rightarrow> bool" where
  "pop_more ts len current_doc total_len \<longleftrightarrow>
     total_len > int (chunk_overlap ts) \<or>
     (total_len + int len + (if length current_doc > 0 then int (length (separator ts)) else 0)
        > int (chunk_size ts) \<and> total_len > 0)"

fun pop_while :: "text_splitter \<Rightarrow> nat \<Rightarrow> pystr list \<Rightarrow> int \<Rightarrow> pystr list \<times> int" where
  "pop_while ts len [] total_len = ([], total_len)"
| "pop_while ts len (x # xs) total_len =
     (if pop_more ts len (x # xs) total_len
      then pop_while ts len xs
             (total_len - (int (length x)
                + (if length (x # xs) > 1 then int (length (separator ts)) else 0)))
      else (x # xs, total_len))"

text \<open>\<open>doc = self._join_docs(current_doc, separator)\<close>, appended unless it is \<open>None\<close>.\<close>

definition append_doc :: "text_splitter \<Rightarrow> pystr list \<Rightarrow> pystr list \<Rightarrow> pystr list" where
  "append_doc ts docs current_doc =
     (case join_docs (separator ts) current_doc of None \<Rightarrow> docs | Some doc \<Rightarrow> docs @ [doc])"

text \<open>
  The test \<open>total + _len + (separator_len if len(current_doc) > 0 else 0) > chunk_size\<close>
  and the new total of \<open>total += _len + (separator_len if len(current_doc) > 1 else 0)\<close>,
  taken after \<open>current_doc.append(d)\<close>.
\<close>

definition exceeds :: "text_splitter \<Rightarrow> pystr list \<Rightarrow> int \<Rightarrow> pystr \<Rightarrow> bool" where
  "exceeds ts current_doc total_len d \<longleftrightarrow>
     total_len + int (length d)
       + (if length current_doc > 0 then int (length (separator ts)) else 0)
       > int (chunk_size ts)"

definition grown :: "text_splitter \<Rightarrow> pystr list \<Rightarrow> int \<Rightarrow> pystr \<Rightarrow> int" where
  "grown ts current_doc total_len d =
     total_len + int (length d)
       + (if length (current_doc @ [d]) > 1 then int (length (separator ts)) else 0)"

text \<open>One round of the \<open>for d in splits\<close> loop, on the state (docs, current_doc, total).\<close>

definition merge_step ::
  "text_splitter \<Rightarrow> pystr list \<times> pystr list \<times> int \<Rightarrow> pystr
     \<Rightarrow> pystr list \<times> pystr list \<times> int" where
  "merge_step ts st d =
     (case st of (docs, current_doc, total_len) \<Rightarrow>
        (case (if exceeds ts current_doc total_len d \<and> length current_doc > 0
               then (case pop_while ts (length d) current_doc total_len of
                       (current_doc', total_len') \<Rightarrow>
                         (append_doc ts docs current_doc, current_doc', total_len'))
               else (docs, current_doc, total_len)) of
           (docs, current_doc, total_len) \<Rightarrow>
             (docs, current_doc @ [d], grown ts current_doc total_len d)))"

text \<open>
  \<open>_merge_splits\<close>, \<open>split_text\<close> (the text is cut at the separator and the empty pieces
  are dropped) and \<open>split_documents\<close> (every window of a document keeps its metadata).
\<close>

definition merge_splits :: "text_splitter \<Rightarrow> pystr list \<Rightarrow> pystr list" where
  "merge_splits ts splits =
     (case foldl (merge_step ts) ([], [], 0) splits of
        (docs, current_doc, total_len) \<Rightarrow> append_doc ts docs current_doc)"

definition split_text :: "text_splitter \<Rightarrow> pystr \<Rightarrow> pystr list" where
  "split_text ts text =
     merge_splits ts
       (filter (\<lambda>s. s \<noteq> [])
          (if separator ts = [] then map (\<lambda>c. [c]) text else split_on (separator ts) text))"

definition split_documents :: "text_splitter \<Rightarrow> document list \<Rightarrow> document list" where
  "split_documents ts input_documents =
     concat (map (\<lambda>doc. map (\<lambda>chunk. \<lparr>page_content = chunk, metadata = metadata doc\<rparr>)
                          (split_text ts (page_content doc))) input_documents)"

text \<open>The splitter that summarize_documents builds.\<close>

definition app_text_splitter :: text_splitter where
  "app_text_splitter = \<lparr>chunk_size = 4000, chunk_overlap = 200, separator = [10]\<rparr>"

text \<open>
  Modelled from the spec: the construction of a splitter. The library's constructor
  raises a ValueError for a window size of zero and for an overlap larger than the
  window size; the parameters of app.py pass.
\<close>

definition character_text_splitter :: "nat \<Rightarrow> nat \<Rightarrow> pystr \<Rightarrow> py_error + text_splitter" where
  "character_text_splitter size_arg overlap_arg sep =
     (if size_arg = 0 \<or> overlap_arg > size_arg then Inl ValueError
      else Inr \<lparr>chunk_size = size_arg, chunk_overlap = overlap_arg, separator = sep\<rparr>)"

section \<open>summarize_documents\<close>

text \<open>The \<open>for doc in split_docs\<close> loop; it ends at the first call that raises.\<close>

fun summarize_chunks ::
  "(document list \<Rightarrow> pystr + pystr) \<Rightarrow> document list \<Rightarrow> document list \<Rightarrow> event list
     \<Rightarrow> (pystr + document list) \<times> event list" where
  "summarize_chunks chain [] summaries tr = (Inr summaries, tr)"
| "summarize_chunks chain (doc # split_docs) summaries tr =
     (case chain [doc] of
        Inl e \<Rightarrow> (Inl e, tr @ [ChainInvoke [doc]])
      | Inr output_text \<Rightarrow>
          summarize_chunks chain split_docs
            (summaries @ [\<lparr>page_content = output_text, metadata = []\<rparr>])
            (tr @ [ChainInvoke [doc]]))"

text \<open>The body of the \<open>try\<close> block.\<close>

definition summarize_body ::
  "(document list \<Rightarrow> document list) \<Rightarrow> (document list \<Rightarrow> pystr + pystr) \<Rightarrow> document list
     \<Rightarrow> (pystr + pystr) \<times> event list" where
  "summarize_body split_documents_of chain input_documents =
     (if length input_documents = 1 \<and> length (page_content (input_documents ! 0)) > 4000 then
        (let split_docs = split_documents_of input_documents in
         if length split_docs > 1 then
           (case summarize_chunks chain split_docs [] [SplitDocuments input_documents] of
              (Inl e, tr) \<Rightarrow> (Inl e, tr)
            | (Inr summaries, tr) \<Rightarrow> (chain summaries, tr @ [ChainInvoke summaries]))
         else (chain input_documents,
               [SplitDocuments input_documents, ChainInvoke input_documents]))
      else (chain input_documents, [ChainInvoke input_documents]))"

text \<open>
  \<open>summarize_documents\<close> returns the summary and makes the calls recorded in the list;
  when a call raises it shows the error and returns \<open>None\<close>.
\<close>

definition summarize_documents ::
  "(document list \<Rightarrow> document list) \<Rightarrow> (document list \<Rightarrow> pystr + pystr) \<Rightarrow> document list
     \<Rightarrow> pystr option \<times> event list" where
  "summarize_documents split_documents_of chain input_documents =
     (case summarize_body split_documents_of chain input_documents of
        (Inr output_text, tr) \<Rightarrow> (Some output_text, tr)
      | (Inl e, tr) \<Rightarrow> (None, tr @ [StError (str ''Error during summarization: '' @ e)]))"

section \<open>The analytics of the summary\<close>

text \<open>
  The analytics tab reads \<open>st.session_state.summary_result\<close>: \<open>len(s.split())\<close>,
  \<open>len(s)\<close>, \<open>max(1, word_count // 200)\<close>, the numbers of \<open>.\<close>, \<open>!\<close> and \<open>?\<close>, and the
  number of lines that are not blank. \<open>summary_analytics\<close> is this computation. The script
  reaches it only inside the results block, under \<open>if st.session_state.summary_result:\<close>,
  which is false for the empty string: \<open>results_analytics\<close> is the computation under this
  guard, None when nothing is shown.
\<close>

definition summary_analytics :: "session_state \<Rightarrow> analytics" where
  "summary_analytics st =
     (let word_count = length (py_split_ws (summary_result st));
          char_count = length (summary_result st);
          reading_time = max 1 (word_count div 200);
          sentences = py_count (summary_result st) 46 + py_count (summary_result st) 33
                        + py_count (summary_result st) 63;
          paragraphs = length (filter (\<lambda>p. py_strip p \<noteq> []) (split_on [10] (summary_result st)))
      in \<lparr>word_count = word_count, char_count = char_count, reading_time = reading_time,
          sentences = sentences, paragraphs = paragraphs\<rparr>)"

definition results_analytics :: "session_state \<Rightarrow> analytics option" where
  "results_analytics st =
     (if summary_result st \<noteq> [] then Some (summary_analytics st) else None)"

section \<open>Notions for stating the properties\<close>

text \<open>The inputs of the calls of the chain, and of the splitter, in a run's record.\<close>

fun chain_calls :: "event list \<Rightarrow> document list list" where
  "chain_calls [] = []"
| "chain_calls (ChainInvoke ds # tr) = ds # chain_calls tr"
| "chain_calls (_ # tr) = chain_calls tr"

fun splitter_calls :: "event list \<Rightarrow> document list list" where
  "splitter_calls [] = []"
| "splitter_calls (SplitDocuments ds # tr) = ds # splitter_calls tr"
| "splitter_calls (_ # tr) = splitter_calls tr"

text \<open>A stub for the chain that echoes "summary:" and its input.\<close>

definition echo_stub :: "document list \<Rightarrow> pystr" where
  "echo_stub ds = str ''summary:'' @ py_join [10, 10] (map page_content ds)"

text \<open>
  The words of a text as the spec has them: the text is cut at every whitespace
  character, and the pieces that are not empty are its words.
\<close>

fun pieces_at :: "('a \<Rightarrow> bool) \<Rightarrow> 'a list \<Rightarrow> 'a list list" where
  "pieces_at P [] = [[]]"
| "pieces_at P (c # cs) =
     (if P c then [] # pieces_at P cs
      else (case pieces_at P cs of f # fs \<Rightarrow> (c # f) # fs | [] \<Rightarrow> [[c]]))"

definition whitespace_words :: "pystr \<Rightarrow> pystr list" where
  "whitespace_words s = filter (\<lambda>w. w \<noteq> []) (pieces_at isspace s)"













section \<open>Facts about the definitions\<close>

lemma find_sub_occurs:
  "find_sub sub s = Some i \<Longrightarrow> s = take i s @ sub @ drop (i + length sub) s"
proof (induction s arbitrary: i)
  case Nil
  then show ?case by (simp split: if_splits)
next
  case (Cons c cs)
  show ?case
  proof (cases "take (length sub) (c # cs) = sub")
    case True
    with Cons.prems have "i = 0" by simp
    moreover have "c # cs = take (length sub) (c # cs) @ drop (length sub) (c # cs)"
      by (simp only: append_take_drop_id)
    ultimately show ?thesis using True by simp
  next
    case False
    with Cons.prems obtain j where j: "find_sub sub cs = Some j" "i = Suc j" by auto
    from Cons.IH [OF j(1)] j(2) show ?thesis by simp
  qed
qed

lemma find_sub_append: "find_sub sub (p @ sub @ q) \<noteq> None"
proof (induction p)
  case Nil
  have t: "take (length sub) (sub @ q) = sub" by simp
  show ?case
  proof (cases "sub @ q")
    case Nil
    then show ?thesis by simp
  next
    case (Cons a list)
    with t have "take (length sub) (a # list) = sub" by simp
    with Cons show ?thesis by simp
  qed
next
  case (Cons c p)
  then show ?case by auto
qed

lemma contains_iff: "contains sub s \<longleftrightarrow> (\<exists>p q. s = p @ sub @ q)"
proof
  assume "contains sub s"
  then obtain i where "find_sub sub s = Some i" by (auto simp: contains_def)
  from find_sub_occurs [OF this] show "\<exists>p q. s = p @ sub @ q" by blast
next
  assume "\<exists>p q. s = p @ sub @ q"
  then obtain p q where "s = p @ sub @ q" by blast
  then show "contains sub s" using find_sub_append [of sub p q] by (simp add: contains_def)
qed

lemma split_on_nonempty: "split_on sep s \<noteq> []"
  by (subst split_on.simps) (simp split: option.splits)

lemma split_on_two:
  assumes "sep \<noteq> []" "contains sep s"
  shows "1 < length (split_on sep s)"
proof -
  from assms(2) obtain i where i: "find_sub sep s = Some i" by (auto simp: contains_def)
  have "split_on sep s = take i s # split_on sep (drop (i + length sep) s)"
    by (subst split_on.simps) (simp add: i assms(1))
  moreover have "split_on sep (drop (i + length sep) s) \<noteq> []" by (rule split_on_nonempty)
  ultimately show ?thesis by (cases "split_on sep (drop (i + length sep) s)") auto
qed

lemma split_item_0: "sep \<noteq> [] \<Longrightarrow> \<exists>v. split_item s sep 0 = Inr v"
  using split_on_nonempty [of sep s] by (simp add: split_item_def py_split_def py_index_def)

lemma split_item_1:
  "sep \<noteq> [] \<Longrightarrow> contains sep s \<Longrightarrow> \<exists>v. split_item s sep 1 = Inr v"
  using split_on_two [of sep s] by (simp add: split_item_def py_split_def py_index_def)

lemma short_form_id_returns:
  assumes "contains (str ''youtu.be/'') u"
  shows "\<exists>v. short_form_id u = Inr v"
proof -
  have "str ''youtu.be/'' \<noteq> []" by (simp add: str_def)
  from split_item_1 [OF this assms] obtain rest
    where rest: "split_item u (str ''youtu.be/'') 1 = Inr rest" by blast
  have "str ''?'' \<noteq> []" by (simp add: str_def)
  from split_item_0 [OF this, of rest] show ?thesis unfolding short_form_id_def rest by simp
qed

lemma watch_form_id_returns:
  assumes "contains (str ''watch?v='') u"
  shows "\<exists>v. watch_form_id u = Inr v"
proof -
  have "str ''watch?v='' \<noteq> []" by (simp add: str_def)
  from split_item_1 [OF this assms] obtain rest
    where rest: "split_item u (str ''watch?v='') 1 = Inr rest" by blast
  have "str ''&'' \<noteq> []" by (simp add: str_def)
  from split_item_0 [OF this, of rest] show ?thesis unfolding watch_form_id_def rest by simp
qed

lemma pieces_at_nonempty: "pieces_at P s \<noteq> []"
  by (induction s) (auto split: list.splits)

lemma pieces_at_takeWhile:
  "pieces_at P s = (case dropWhile (\<lambda>x. \<not> P x) s of
       [] \<Rightarrow> [takeWhile (\<lambda>x. \<not> P x) s]
     | c # cs \<Rightarrow> takeWhile (\<lambda>x. \<not> P x) s # pieces_at P cs)"
proof (induction s)
  case Nil
  show ?case by simp
next
  case (Cons a s)
  show ?case
  proof (cases "P a")
    case True
    then show ?thesis by simp
  next
    case False
    show ?thesis
    proof (cases "dropWhile (\<lambda>x. \<not> P x) s")
      case Nil
      with Cons have "pieces_at P s = [takeWhile (\<lambda>x. \<not> P x) s]" by (simp only: list.case)
      with False Nil show ?thesis by (simp only: pieces_at.simps dropWhile.simps takeWhile.simps if_True if_False list.case not_False_eq_True)
    next
      case (Cons d ds)
      with Cons.IH have "pieces_at P s = takeWhile (\<lambda>x. \<not> P x) s # pieces_at P ds"
        by (simp only: list.case)
      with False Cons show ?thesis by (simp only: pieces_at.simps dropWhile.simps takeWhile.simps if_True if_False list.case not_False_eq_True)
    qed
  qed
qed

lemma words_dropWhile: 
  "filter (\<lambda>w. w \<noteq> []) (pieces_at P s) = filter (\<lambda>w. w \<noteq> []) (pieces_at P (dropWhile P s))"
  by (induction s) auto

lemma words_step:
  assumes "\<not> P c"
  shows "filter (\<lambda>w. w \<noteq> []) (pieces_at P (c # cs)) =
           (c # takeWhile (\<lambda>x. \<not> P x) cs)
             # filter (\<lambda>w. w \<noteq> []) (pieces_at P (dropWhile (\<lambda>x. \<not> P x) cs))"
proof -
  have e: "pieces_at P (c # cs) =
      (case dropWhile (\<lambda>x. \<not> P x) cs of
         [] \<Rightarrow> [c # takeWhile (\<lambda>x. \<not> P x) cs]
       | d # ds \<Rightarrow> (c # takeWhile (\<lambda>x. \<not> P x) cs) # pieces_at P ds)"
  proof -
    have d: "dropWhile (\<lambda>x. \<not> P x) (c # cs) = dropWhile (\<lambda>x. \<not> P x) cs"
      using assms by simp
    have t: "takeWhile (\<lambda>x. \<not> P x) (c # cs) = c # takeWhile (\<lambda>x. \<not> P x) cs"
      using assms by simp
    show ?thesis using pieces_at_takeWhile [of P "c # cs"] unfolding d t .
  qed
  show ?thesis
  proof (cases "dropWhile (\<lambda>x. \<not> P x) cs")
    case Nil
    from e have "pieces_at P (c # cs) = [c # takeWhile (\<lambda>x. \<not> P x) cs]"
      by (simp only: Nil list.case)
    then show ?thesis by (simp only: Nil) simp
  next
    case (Cons d ds)
    then have "P d" using hd_dropWhile [of "\<lambda>x. \<not> P x" cs] by auto
    moreover from e have "pieces_at P (c # cs) = (c # takeWhile (\<lambda>x. \<not> P x) cs) # pieces_at P ds"
      by (simp only: Cons list.case)
    ultimately show ?thesis by (simp only: Cons) simp
  qed
qed

lemma py_split_ws_words: "py_split_ws s = whitespace_words s"
proof (induction s rule: py_split_ws.induct)
  case (1 s)
  have w: "whitespace_words s = filter (\<lambda>w. w \<noteq> []) (pieces_at isspace (dropWhile isspace s))"
    unfolding whitespace_words_def by (rule words_dropWhile)
  show ?case
  proof (cases "dropWhile isspace s")
    case Nil
    have "py_split_ws s = []" by (subst py_split_ws.simps) (simp only: Nil list.case)
    moreover from w have "whitespace_words s = []" by (simp only: Nil) simp
    ultimately show ?thesis by simp
  next
    case (Cons c cs)
    then have nc: "\<not> isspace c" using hd_dropWhile [of isspace s] by auto
    have "whitespace_words s = filter (\<lambda>w. w \<noteq> []) (pieces_at isspace (c # cs))"
      using w by (simp only: Cons)
    also have "\<dots> = (c # takeWhile (\<lambda>x. \<not> isspace x) cs)
        # filter (\<lambda>w. w \<noteq> []) (pieces_at isspace (dropWhile (\<lambda>x. \<not> isspace x) cs))"
      by (rule words_step [where P = isspace, OF nc])
    also have "\<dots> = (c # takeWhile (\<lambda>x. \<not> isspace x) cs)
        # whitespace_words (dropWhile (\<lambda>x. \<not> isspace x) cs)"
      by (simp only: whitespace_words_def)
    also have "\<dots> = (c # takeWhile (\<lambda>x. \<not> isspace x) cs)
        # py_split_ws (dropWhile (\<lambda>x. \<not> isspace x) cs)"
      by (simp only: 1 [OF Cons])
    also have "\<dots> = py_split_ws s"
      by (subst (2) py_split_ws.simps) (simp only: Cons list.case)
    finally show ?thesis by simp
  qed
qed

lemma selectable_is_key:
  "k \<in> set (production_models @ preview_models) \<Longrightarrow> k \<in> fst ` set GROQ_MODELS"
  unfolding production_models_def preview_models_def by auto

lemma production_models_eval:
  "production_models =
     [[128640] @ str '' Llama 3.1 8B (Fast)'', [129504] @ str '' Llama 3.3 70B (Smart)'',
      [128293] @ str '' GPT-OSS 120B (Premium)'', [11088] @ str '' GPT-OSS 20B (Balanced)'']"
  by (simp add: production_models_def GROQ_MODELS_def str_def)

lemma chain_calls_append: "chain_calls (a @ b) = chain_calls a @ chain_calls b"
  by (induction a rule: chain_calls.induct) auto

lemma splitter_calls_append: "splitter_calls (a @ b) = splitter_calls a @ splitter_calls b"
  by (induction a rule: splitter_calls.induct) auto

lemma summarize_chunks_stub:
  "summarize_chunks (\<lambda>ds. Inr (stub ds)) chunks summaries tr =
     (Inr (summaries @ map (\<lambda>c. \<lparr>page_content = stub [c], metadata = []\<rparr>) chunks),
      tr @ map (\<lambda>c. ChainInvoke [c]) chunks)"
  by (induction chunks arbitrary: summaries tr) auto

lemma chain_calls_invokes: "chain_calls (map (\<lambda>c. ChainInvoke [c]) chunks) = map (\<lambda>c. [c]) chunks"
  by (induction chunks) auto

lemma splitter_calls_invokes: "splitter_calls (map (\<lambda>c. ChainInvoke [c]) chunks) = []"
  by (induction chunks) auto

lemma find_single_none: "c \<notin> set s \<Longrightarrow> find_sub [c] s = None"
  by (induction s) auto

lemma find_single_some: "c \<notin> set p \<Longrightarrow> find_sub [c] (p @ c # q) = Some (length p)"
  by (induction p) auto

lemma split_on_single_none: "c \<notin> set s \<Longrightarrow> split_on [c] s = [s]"
  by (subst split_on.simps) (simp add: find_single_none)

lemma split_on_single_cons: "c \<notin> set p \<Longrightarrow> split_on [c] (p @ c # q) = p # split_on [c] q"
  by (subst split_on.simps) (simp add: find_single_some)

lemma split_on_single_run:
  "filter (\<lambda>s. s \<noteq> []) (split_on [c] (replicate k c @ s)) = filter (\<lambda>s. s \<noteq> []) (split_on [c] s)"
proof (induction k)
  case 0
  show ?case by simp
next
  case (Suc k)
  have "split_on [c] ([] @ c # (replicate k c @ s)) = [] # split_on [c] (replicate k c @ s)"
    by (rule split_on_single_cons) simp
  with Suc show ?case by simp
qed

lemma py_strip_id:
  assumes "s \<noteq> []" "\<not> isspace (hd s)" "\<not> isspace (last s)"
  shows "py_strip s = s"
proof -
  from assms have "dropWhile isspace s = s" by (cases s) auto
  moreover from assms have "dropWhile isspace (rev s) = rev s"
    by (cases "rev s") (auto simp: hd_rev)
  ultimately show ?thesis by (simp add: py_strip_def)
qed

lemma merge_single:
  assumes "py_strip s = s" "s \<noteq> []"
  shows "merge_splits ts [s] = [s]"
  using assms
  by (simp add: merge_splits_def merge_step_def exceeds_def grown_def append_doc_def
      join_docs_def)

lemma split_text_unsplittable:
  assumes "s \<noteq> []" "\<not> isspace (hd s)" "\<not> isspace (last s)" "10 \<notin> set s"
  shows "split_text app_text_splitter s = [s]"
proof -
  have "split_on [10] s = [s]" using assms(4) by (rule split_on_single_none)
  moreover have "merge_splits app_text_splitter [s] = [s]"
    using py_strip_id [OF assms(1-3)] assms(1) by (rule merge_single)
  ultimately show ?thesis using assms(1) by (simp add: split_text_def app_text_splitter_def)
qed

lemma nine_thousand_one_chunk:
  "split_documents app_text_splitter [\<lparr>page_content = replicate 9000 97, metadata = []\<rparr>]
     = [\<lparr>page_content = replicate 9000 97, metadata = []\<rparr>]"
proof -
  have "split_text app_text_splitter (replicate 9000 97) = [replicate 9000 97]"
    by (rule split_text_unsplittable) (simp_all add: isspace_def last_replicate)
  then show ?thesis by (simp add: split_documents_def)
qed

lemma single_chunk_trace:
  assumes "4000 < length (page_content d)" "length (split_documents_of [d]) \<le> 1"
  shows "snd (summarize_documents split_documents_of (\<lambda>ds. Inr (stub ds)) [d])
           = [SplitDocuments [d], ChainInvoke [d]]"
  using assms by (simp add: summarize_documents_def summarize_body_def Let_def)

lemma merge_two_full:
  assumes "py_strip a = a" "a \<noteq> []" "py_strip b = b" "b \<noteq> []"
    and "chunk_size ts < length a + length b + length (separator ts)"
    and "chunk_overlap ts < length a"
  shows "merge_splits ts [a, b] = [a, b]"
  using assms
  by (simp add: merge_splits_def merge_step_def exceeds_def grown_def append_doc_def
      join_docs_def pop_more_def)

lemma two_chunks:
  "split_documents app_text_splitter
     [\<lparr>page_content = replicate 4000 97 @ replicate 1000 10 @ replicate 4000 97, metadata = []\<rparr>]
     = [\<lparr>page_content = replicate 4000 97, metadata = []\<rparr>,
        \<lparr>page_content = replicate 4000 97, metadata = []\<rparr>]"
proof -
  define a :: pystr where "a = replicate 4000 97"
  have a: "a \<noteq> []" "10 \<notin> set a" "length a = 4000" "\<not> isspace (hd a)" "\<not> isspace (last a)"
    by (simp_all add: a_def isspace_def last_replicate)
  have s: "py_strip a = a" using a(1,4,5) by (rule py_strip_id)
  have "replicate 1000 10 = 10 # replicate 999 (10::nat)"
    by (simp add: replicate_Suc [symmetric] del: replicate_Suc)
  then have "split_on [10] (a @ replicate 1000 10 @ a) = a # split_on [10] (replicate 999 10 @ a)"
    using split_on_single_cons [OF a(2), of "replicate 999 10 @ a"] by simp
  moreover have "filter (\<lambda>s. s \<noteq> []) (split_on [10] (replicate 999 10 @ a))
      = filter (\<lambda>s. s \<noteq> []) (split_on [10] a)"
    by (rule split_on_single_run)
  moreover have "split_on [10] a = [a]" using a(2) by (rule split_on_single_none)
  ultimately have "filter (\<lambda>s. s \<noteq> []) (split_on [10] (a @ replicate 1000 10 @ a)) = [a, a]"
    using a(1) by simp
  moreover have "merge_splits app_text_splitter [a, a] = [a, a]"
    using s a(1) s a(1) by (rule merge_two_full) (simp_all add: a(3) app_text_splitter_def)
  ultimately have "split_text app_text_splitter (a @ replicate 1000 10 @ a) = [a, a]"
    by (simp add: split_text_def app_text_splitter_def)
  then show ?thesis by (simp add: split_documents_def a_def)
qed

lemma contains_middle: "contains m (a @ m @ b)"
  unfolding contains_iff by blast

lemma contains_Cons: "contains sub s \<Longrightarrow> contains sub (c # s)"
  unfolding contains_iff by (metis append_Cons)

lemma prefix_contains: "take (length sub) s = sub \<Longrightarrow> contains sub s"
proof -
  assume "take (length sub) s = sub"
  then have "s = [] @ sub @ drop (length sub) s" by (metis append_Nil append_take_drop_id)
  then show ?thesis unfolding contains_iff by blast
qed

lemma find_first:
  assumes "sep \<noteq> []"
  shows "\<not> contains sep (p @ butlast sep) \<Longrightarrow> find_sub sep (p @ sep @ v) = Some (length p)"
proof (induction p)
  case Nil
  have t: "take (length sep) (sep @ v) = sep" by simp
  from assms obtain a l where al: "sep @ v = a # l" by (cases "sep @ v") auto
  with t have "take (length sep) (a # l) = sep" by simp
  with al show ?case by simp
next
  case (Cons c p)
  have n: "\<not> contains sep (p @ butlast sep)"
    using Cons.prems contains_Cons [of sep "p @ butlast sep" c] by auto
  have "take (length sep) (c # p @ sep @ v) \<noteq> sep"
  proof
    assume e: "take (length sep) (c # p @ sep @ v) = sep"
    have "length sep \<le> length (c # p @ butlast sep)" using assms by simp
    moreover have "c # p @ sep @ v = (c # p @ butlast sep) @ (last sep # v)"
      using assms by simp
    ultimately have "take (length sep) (c # p @ sep @ v) = take (length sep) (c # p @ butlast sep)"
      by (simp only: take_append) simp
    with e have "take (length sep) (c # p @ butlast sep) = sep" by simp
    then have "contains sep (c # p @ butlast sep)" by (rule prefix_contains)
    with Cons.prems show False by simp
  qed
  with Cons.IH [OF n] show ?case by simp
qed

lemma split_on_first:
  assumes "sep \<noteq> []" "\<not> contains sep (p @ butlast sep)"
  shows "split_on sep (p @ sep @ v) = p # split_on sep v"
  by (subst split_on.simps) (simp add: find_first [OF assms] assms(1))

lemma split_on_none: "\<not> contains sep v \<Longrightarrow> split_on sep v = [v]"
  by (subst split_on.simps) (simp add: contains_def)

lemma takeWhile_until: "c \<notin> set p \<Longrightarrow> takeWhile (\<lambda>x. x \<noteq> c) (p @ c # q) = p"
  by (induction p) auto

lemma split_single_head: "split_on [c] v ! 0 = takeWhile (\<lambda>x. x \<noteq> c) v"
proof (cases "c \<in> set v")
  case False
  then have "split_on [c] v = [v]" by (rule split_on_single_none)
  moreover from False have "takeWhile (\<lambda>x. x \<noteq> c) v = v"
    by (auto simp: takeWhile_eq_all_conv)
  ultimately show ?thesis by (simp only: nth_Cons_0)
next
  case True
  then obtain p q where v: "v = p @ c # q" "c \<notin> set p" by (meson split_list_first)
  then have "split_on [c] v = p # split_on [c] q"
    by (simp add: split_on_single_cons del: split_on.simps)
  moreover have "takeWhile (\<lambda>x. x \<noteq> c) v = p"
    using takeWhile_until [OF v(2), of q] v(1) by simp
  ultimately show ?thesis by (simp only: nth_Cons_0)
qed

lemma split_item_single_0: "split_item v [c] 0 = Inr (takeWhile (\<lambda>x. x \<noteq> c) v)"
  using split_on_nonempty [of "[c]" v] split_single_head [of c v]
  by (simp add: split_item_def py_split_def py_index_def del: split_on.simps)

lemma split_item_first_1:
  assumes "sep \<noteq> []" "\<not> contains sep (p @ butlast sep)"
  shows "split_item (p @ sep @ v) sep 1 = Inr (split_on sep v ! 0)"
proof -
  have "split_on sep (p @ sep @ v) = p # split_on sep v"
    by (rule split_on_first [OF assms])
  moreover obtain x xs where "split_on sep v = x # xs"
    using split_on_nonempty [of sep v] by (cases "split_on sep v") auto
  ultimately show ?thesis
    using assms(1) by (simp add: split_item_def py_split_def py_index_def del: split_on.simps)
qed

lemma split_on_head_none: "\<not> contains sep v \<Longrightarrow> split_on sep v ! 0 = v"
  by (simp add: split_on_none del: split_on.simps)

lemma split_on_head_first:
  "sep \<noteq> [] \<Longrightarrow> \<not> contains sep (m @ butlast sep) \<Longrightarrow> split_on sep (m @ sep @ v) ! 0 = m"
  by (simp add: split_on_first del: split_on.simps)

lemma short_form_id_cut:
  assumes "\<not> contains (str ''youtu.be/'') (p @ butlast (str ''youtu.be/''))"
  shows "short_form_id (p @ str ''youtu.be/'' @ v)
           = Inr (takeWhile (\<lambda>x. x \<noteq> 63) (split_on (str ''youtu.be/'') v ! 0))"
proof -
  have "str ''youtu.be/'' \<noteq> []" by (simp add: str_def)
  from split_item_first_1 [OF this assms]
  have "split_item (p @ str ''youtu.be/'' @ v) (str ''youtu.be/'') 1
          = Inr (split_on (str ''youtu.be/'') v ! 0)" .
  moreover have "str ''?'' = [63]" by (simp add: str_def)
  ultimately show ?thesis unfolding short_form_id_def by (simp only: sum.case split_item_single_0)
qed

lemma watch_form_id_cut:
  assumes "\<not> contains (str ''watch?v='') (p @ butlast (str ''watch?v=''))"
  shows "watch_form_id (p @ str ''watch?v='' @ v)
           = Inr (takeWhile (\<lambda>x. x \<noteq> 38) (split_on (str ''watch?v='') v ! 0))"
proof -
  have "str ''watch?v='' \<noteq> []" by (simp add: str_def)
  from split_item_first_1 [OF this assms]
  have "split_item (p @ str ''watch?v='' @ v) (str ''watch?v='') 1
          = Inr (split_on (str ''watch?v='') v ! 0)" .
  moreover have "str ''&'' = [38]" by (simp add: str_def)
  ultimately show ?thesis unfolding watch_form_id_def by (simp only: sum.case split_item_single_0)
qed



































lemma app_text_splitter_built: "character_text_splitter 4000 200 [10] = Inr app_text_splitter"
  by (simp add: character_text_splitter_def app_text_splitter_def)

text \<open>
  Two texts with the same windows: a line that occurs twice can look like an overlap.
\<close>

lemma repeated_line_windows:
  "split_text \<lparr>chunk_size = 6, chunk_overlap = 3, separator = [10]\<rparr>
       (str ''ab'' @ [10] @ str ''cde'' @ [10] @ str ''fg'')
     = [str ''ab'' @ [10] @ str ''cde'', str ''cde'' @ [10] @ str ''fg''] \<and>
   split_text \<lparr>chunk_size = 6, chunk_overlap = 3, separator = [10]\<rparr>
       (str ''ab'' @ [10] @ str ''cde'' @ [10] @ str ''cde'' @ [10] @ str ''fg'')
     = [str ''ab'' @ [10] @ str ''cde'', str ''cde'' @ [10] @ str ''fg'']"
  by (simp add: split_text_def str_def merge_splits_def merge_step_def exceeds_def grown_def
      pop_more_def append_doc_def join_docs_def py_strip_def isspace_def)

lemma words_replicate:
  "whitespace_words (concat (replicate n (str ''word ''))) = replicate n (str ''word'')"
proof (induction n)
  case 0
  show ?case by (simp add: whitespace_words_def)
next
  case (Suc n)
  have "pieces_at isspace (str ''word '' @ s) = str ''word'' # pieces_at isspace s" for s
    by (cases "pieces_at isspace s") (simp_all add: str_def isspace_def)
  with Suc show ?case by (simp add: whitespace_words_def str_def)
qed

section \<open>The properties\<close>

text \<open>
  C1 (as amended). For one document of more than 4000 characters and a chain that always
  returns: when the splitter returns n > 1 chunks, the chain is called n + 1 times, once
  on each chunk in order and then once on the n intermediate summaries in that same
  order (3 calls when there are 2 chunks), and the result is the output of that last
  call; when the splitter returns a single chunk, the chain is called once, on the
  document itself.
\<close>

theorem map_reduce_calls:
  assumes "4000 < length (page_content d)"
  shows "(1 < length (split_documents_of [d]) \<longrightarrow>
           chain_calls (snd (summarize_documents split_documents_of (\<lambda>ds. Inr (stub ds)) [d]))
             = map (\<lambda>c. [c]) (split_documents_of [d])
                 @ [map (\<lambda>c. \<lparr>page_content = stub [c], metadata = []\<rparr>) (split_documents_of [d])]
           \<and> length (chain_calls
                 (snd (summarize_documents split_documents_of (\<lambda>ds. Inr (stub ds)) [d])))
               = length (split_documents_of [d]) + 1
           \<and> fst (summarize_documents split_documents_of (\<lambda>ds. Inr (stub ds)) [d])
               = Some (stub (map (\<lambda>c. \<lparr>page_content = stub [c], metadata = []\<rparr>)
                               (split_documents_of [d])))) \<and>
         (length (split_documents_of [d]) \<le> 1 \<longrightarrow>
           chain_calls (snd (summarize_documents split_documents_of (\<lambda>ds. Inr (stub ds)) [d]))
             = [[d]])"
  using assms
  by (simp add: summarize_documents_def summarize_body_def Let_def summarize_chunks_stub
      chain_calls_append chain_calls_invokes)

theorem map_reduce_calls_witness:
  "length (page_content
      \<lparr>page_content = replicate 4000 97 @ replicate 1000 10 @ replicate 4000 97, metadata = []\<rparr>)
     = 9000 \<and>
   length (split_documents app_text_splitter
      [\<lparr>page_content = replicate 4000 97 @ replicate 1000 10 @ replicate 4000 97, metadata = []\<rparr>])
     = 2 \<and>
   chain_calls (snd (summarize_documents (split_documents app_text_splitter)
      (\<lambda>ds. Inr (echo_stub ds))
      [\<lparr>page_content = replicate 4000 97 @ replicate 1000 10 @ replicate 4000 97, metadata = []\<rparr>]))
     = [[\<lparr>page_content = replicate 4000 97, metadata = []\<rparr>],
        [\<lparr>page_content = replicate 4000 97, metadata = []\<rparr>],
        [\<lparr>page_content = echo_stub [\<lparr>page_content = replicate 4000 97, metadata = []\<rparr>],
           metadata = []\<rparr>,
         \<lparr>page_content = echo_stub [\<lparr>page_content = replicate 4000 97, metadata = []\<rparr>],
           metadata = []\<rparr>]] \<and>
   length (split_documents app_text_splitter
      [\<lparr>page_content = replicate 9000 97, metadata = []\<rparr>]) = 1 \<and>
   chain_calls (snd (summarize_documents (split_documents app_text_splitter)
      (\<lambda>ds. Inr (echo_stub ds)) [\<lparr>page_content = replicate 9000 97, metadata = []\<rparr>]))
     = [[\<lparr>page_content = replicate 9000 97, metadata = []\<rparr>]]"
proof -
  let ?d = "\<lparr>page_content = replicate 4000 (97::nat) @ replicate 1000 10 @ replicate 4000 97,
             metadata = []\<rparr>"
  let ?e = "\<lparr>page_content = replicate 9000 (97::nat), metadata = []\<rparr>"
  have l: "4000 < length (page_content ?d)" "4000 < length (page_content ?e)" by simp_all
  have n: "length (page_content ?d) = 9000" by simp
  have two: "1 < length (split_documents app_text_splitter [?d])"
    "length (split_documents app_text_splitter [?d]) = 2"
    by (simp_all add: two_chunks)
  have one: "length (split_documents app_text_splitter [?e]) \<le> 1"
    "length (split_documents app_text_splitter [?e]) = 1"
    by (simp_all add: nine_thousand_one_chunk)
  from map_reduce_calls [OF l(1), of "split_documents app_text_splitter" echo_stub] two(1)
  have "chain_calls (snd (summarize_documents (split_documents app_text_splitter)
      (\<lambda>ds. Inr (echo_stub ds)) [?d]))
    = map (\<lambda>c. [c]) (split_documents app_text_splitter [?d])
        @ [map (\<lambda>c. \<lparr>page_content = echo_stub [c], metadata = []\<rparr>)
             (split_documents app_text_splitter [?d])]"
    by blast
  then have a: "chain_calls (snd (summarize_documents (split_documents app_text_splitter)
      (\<lambda>ds. Inr (echo_stub ds)) [?d]))
     = [[\<lparr>page_content = replicate 4000 97, metadata = []\<rparr>],
        [\<lparr>page_content = replicate 4000 97, metadata = []\<rparr>],
        [\<lparr>page_content = echo_stub [\<lparr>page_content = replicate 4000 97, metadata = []\<rparr>],
           metadata = []\<rparr>,
         \<lparr>page_content = echo_stub [\<lparr>page_content = replicate 4000 97, metadata = []\<rparr>],
           metadata = []\<rparr>]]"
    by (simp only: two_chunks) simp
  from map_reduce_calls [OF l(2), of "split_documents app_text_splitter" echo_stub] one(1)
  have b: "chain_calls (snd (summarize_documents (split_documents app_text_splitter)
      (\<lambda>ds. Inr (echo_stub ds)) [?e])) = [[?e]]"
    by blast
  from n two(2) a one(2) b show ?thesis by blast
qed

text \<open>
  C1 as the spec states it fails: a document of 9000 letters without a newline is one
  unit that cannot be split, the splitter returns it as a single window, and the pipeline
  calls the chain once, not three times.
\<close>

theorem nine_thousand_single_call:
  "length (page_content \<lparr>page_content = replicate 9000 97, metadata = []\<rparr>) = 9000 \<and>
   chain_calls (snd (summarize_documents (split_documents app_text_splitter)
       (\<lambda>ds. Inr (echo_stub ds)) [\<lparr>page_content = replicate 9000 97, metadata = []\<rparr>]))
     = [[\<lparr>page_content = replicate 9000 97, metadata = []\<rparr>]] \<and>
   length (chain_calls (snd (summarize_documents (split_documents app_text_splitter)
       (\<lambda>ds. Inr (echo_stub ds)) [\<lparr>page_content = replicate 9000 97, metadata = []\<rparr>]))) \<noteq> 3"
proof -
  let ?d = "\<lparr>page_content = replicate 9000 (97::nat), metadata = []\<rparr>"
  have "snd (summarize_documents (split_documents app_text_splitter)
       (\<lambda>ds. Inr (echo_stub ds)) [?d]) = [SplitDocuments [?d], ChainInvoke [?d]]"
    by (rule single_chunk_trace) (simp_all add: nine_thousand_one_chunk)
  then show ?thesis by simp
qed

text \<open>
  C2. For every input of more than one document, whatever the documents' lengths, the
  pipeline calls the chain exactly once, on the full list of input documents, and never
  calls the splitter; the result is the chain's output (None when the call raised).
\<close>

theorem multi_document_single_call:
  assumes "1 < length ds"
  shows "chain_calls (snd (summarize_documents split_documents_of chain ds)) = [ds] \<and>
         splitter_calls (snd (summarize_documents split_documents_of chain ds)) = [] \<and>
         fst (summarize_documents split_documents_of chain ds)
           = (case chain ds of Inl e \<Rightarrow> None | Inr output_text \<Rightarrow> Some output_text)"
  using assms
  by (cases "chain ds")
    (simp_all add: summarize_documents_def summarize_body_def chain_calls_append
       splitter_calls_append)

theorem multi_document_single_call_witness:
  "1 < length [\<lparr>page_content = str ''one'', metadata = []\<rparr>,
               \<lparr>page_content = str ''two'', metadata = []\<rparr>,
               \<lparr>page_content = str ''three'', metadata = []\<rparr>] \<and>
   chain_calls (snd (summarize_documents (split_documents app_text_splitter)
       (\<lambda>ds. Inr (echo_stub ds))
       [\<lparr>page_content = str ''one'', metadata = []\<rparr>,
        \<lparr>page_content = str ''two'', metadata = []\<rparr>,
        \<lparr>page_content = str ''three'', metadata = []\<rparr>]))
     = [[\<lparr>page_content = str ''one'', metadata = []\<rparr>,
         \<lparr>page_content = str ''two'', metadata = []\<rparr>,
         \<lparr>page_content = str ''three'', metadata = []\<rparr>]] \<and>
   splitter_calls (snd (summarize_documents (split_documents app_text_splitter)
       (\<lambda>ds. Inr (echo_stub ds))
       [\<lparr>page_content = str ''one'', metadata = []\<rparr>,
        \<lparr>page_content = str ''two'', metadata = []\<rparr>,
        \<lparr>page_content = str ''three'', metadata = []\<rparr>])) = []"
proof -
  let ?ds = "[\<lparr>page_content = str ''one'', metadata = []\<rparr>,
              \<lparr>page_content = str ''two'', metadata = []\<rparr>,
              \<lparr>page_content = str ''three'', metadata = []\<rparr>]"
  have l: "1 < length ?ds" by simp
  from multi_document_single_call [OF l, of "split_documents app_text_splitter"
      "\<lambda>ds. Inr (echo_stub ds)"] l
  show ?thesis by blast
qed

text \<open>
  C3 (as amended). https://youtu.be/ABC123?t=5 yields ABC123 and
  https://youtube.com/watch?v=XYZ789&list=PL1 yields XYZ789. Each shape has its own
  terminators. In a URL that contains "youtu.be/" the identifier starts behind the first
  "youtu.be/" and runs to the next "?", to the next "youtu.be/" or to the end of the URL,
  whichever comes first; an "&" does not end it. In a URL without "youtu.be/" that
  contains "watch?v=" it starts behind the first "watch?v=" and runs to the next "&", to
  the next "watch?v=" or to the end of the URL, whichever comes first; a "?" does not end
  it. A URL with neither "youtu.be/" nor "watch?v=" yields no identifier, and the YouTube
  loader, when the transcript package is available, reports "Invalid YouTube URL format"
  and returns no documents. When the package is not available the loader reports that
  and returns no documents, whatever the URL.

  A URL \<open>p @ sep @ v\<close> in which \<open>sep\<close> does not occur in \<open>p @ butlast sep\<close> is a URL whose
  first \<open>sep\<close> is the one behind \<open>p\<close>.
\<close>

theorem extract_video_id_shapes:
  "extract_video_id (str ''https://youtu.be/ABC123?t=5'') = Inr (Some (str ''ABC123'')) \<and>
   extract_video_id (str ''https://youtube.com/watch?v=XYZ789&list=PL1'')
     = Inr (Some (str ''XYZ789'')) \<and>
   (\<not> contains (str ''youtu.be/'') u \<and> \<not> contains (str ''watch?v='') u \<longrightarrow>
      extract_video_id u = Inr None \<and>
      load_youtube_documents True fetch fallback_load u
        = (None, [StError (str ''Invalid YouTube URL format'')])) \<and>
   load_youtube_documents False fetch fallback_load u
     = (None, [StError (str ''YouTube transcript functionality not available. Please install: pip install youtube-transcript-api'')]) \<and>
   (\<not> contains (str ''youtu.be/'') (p @ butlast (str ''youtu.be/'')) \<and>
    \<not> contains (str ''youtu.be/'') v \<longrightarrow>
      extract_video_id (p @ str ''youtu.be/'' @ v)
        = Inr (Some (takeWhile (\<lambda>x. x \<noteq> 63) v))) \<and>
   (\<not> contains (str ''youtu.be/'') (p @ butlast (str ''youtu.be/'')) \<and>
    \<not> contains (str ''youtu.be/'') (m @ butlast (str ''youtu.be/'')) \<longrightarrow>
      extract_video_id (p @ str ''youtu.be/'' @ m @ str ''youtu.be/'' @ v')
        = Inr (Some (takeWhile (\<lambda>x. x \<noteq> 63) m))) \<and>
   (\<not> contains (str ''youtu.be/'') (q @ str ''watch?v='' @ w) \<and>
    \<not> contains (str ''watch?v='') (q @ butlast (str ''watch?v='')) \<and>
    \<not> contains (str ''watch?v='') w \<longrightarrow>
      extract_video_id (q @ str ''watch?v='' @ w)
        = Inr (Some (takeWhile (\<lambda>x. x \<noteq> 38) w))) \<and>
   (\<not> contains (str ''youtu.be/'') (q @ str ''watch?v='' @ n @ str ''watch?v='' @ w') \<and>
    \<not> contains (str ''watch?v='') (q @ butlast (str ''watch?v='')) \<and>
    \<not> contains (str ''watch?v='') (n @ butlast (str ''watch?v='')) \<longrightarrow>
      extract_video_id (q @ str ''watch?v='' @ n @ str ''watch?v='' @ w')
        = Inr (Some (takeWhile (\<lambda>x. x \<noteq> 38) n)))"
proof (intro conjI impI)
  show "extract_video_id (str ''https://youtu.be/ABC123?t=5'') = Inr (Some (str ''ABC123''))"
    by (simp add: extract_video_id_def contains_def short_form_id_def split_item_def
        py_split_def py_index_def str_def)
  show "extract_video_id (str ''https://youtube.com/watch?v=XYZ789&list=PL1'')
     = Inr (Some (str ''XYZ789''))"
    by (simp add: extract_video_id_def contains_def watch_form_id_def split_item_def
        py_split_def py_index_def str_def)
  show "load_youtube_documents False fetch fallback_load u
     = (None, [StError (str ''YouTube transcript functionality not available. Please install: pip install youtube-transcript-api'')])"
    by (simp add: load_youtube_documents_def)
next
  assume a: "\<not> contains (str ''youtu.be/'') u \<and> \<not> contains (str ''watch?v='') u"
  then show "extract_video_id u = Inr None" by (simp add: extract_video_id_def)
  then show "load_youtube_documents True fetch fallback_load u
        = (None, [StError (str ''Invalid YouTube URL format'')])"
    by (simp add: load_youtube_documents_def)
next
  assume a: "\<not> contains (str ''youtu.be/'') (p @ butlast (str ''youtu.be/'')) \<and>
    \<not> contains (str ''youtu.be/'') v"
  then have "short_form_id (p @ str ''youtu.be/'' @ v) = Inr (takeWhile (\<lambda>x. x \<noteq> 63) v)"
    by (simp add: short_form_id_cut split_on_head_none del: split_on.simps)
  moreover have "contains (str ''youtu.be/'') (p @ str ''youtu.be/'' @ v)"
    by (rule contains_middle)
  ultimately show "extract_video_id (p @ str ''youtu.be/'' @ v)
        = Inr (Some (takeWhile (\<lambda>x. x \<noteq> 63) v))"
    by (simp add: extract_video_id_def)
next
  assume a: "\<not> contains (str ''youtu.be/'') (p @ butlast (str ''youtu.be/'')) \<and>
    \<not> contains (str ''youtu.be/'') (m @ butlast (str ''youtu.be/''))"
  have "str ''youtu.be/'' \<noteq> []" by (simp add: str_def)
  with a have "short_form_id (p @ str ''youtu.be/'' @ m @ str ''youtu.be/'' @ v')
      = Inr (takeWhile (\<lambda>x. x \<noteq> 63) m)"
    by (simp add: short_form_id_cut split_on_head_first del: split_on.simps)
  moreover have "contains (str ''youtu.be/'') (p @ str ''youtu.be/'' @ m @ str ''youtu.be/'' @ v')"
    by (rule contains_middle)
  ultimately show "extract_video_id (p @ str ''youtu.be/'' @ m @ str ''youtu.be/'' @ v')
        = Inr (Some (takeWhile (\<lambda>x. x \<noteq> 63) m))"
    by (simp add: extract_video_id_def)
next
  assume a: "\<not> contains (str ''youtu.be/'') (q @ str ''watch?v='' @ w) \<and>
    \<not> contains (str ''watch?v='') (q @ butlast (str ''watch?v='')) \<and>
    \<not> contains (str ''watch?v='') w"
  then have "watch_form_id (q @ str ''watch?v='' @ w) = Inr (takeWhile (\<lambda>x. x \<noteq> 38) w)"
    by (simp add: watch_form_id_cut split_on_head_none del: split_on.simps)
  moreover have "contains (str ''watch?v='') (q @ str ''watch?v='' @ w)"
    by (rule contains_middle)
  ultimately show "extract_video_id (q @ str ''watch?v='' @ w)
        = Inr (Some (takeWhile (\<lambda>x. x \<noteq> 38) w))"
    using a by (simp add: extract_video_id_def)
next
  assume a: "\<not> contains (str ''youtu.be/'') (q @ str ''watch?v='' @ n @ str ''watch?v='' @ w') \<and>
    \<not> contains (str ''watch?v='') (q @ butlast (str ''watch?v='')) \<and>
    \<not> contains (str ''watch?v='') (n @ butlast (str ''watch?v=''))"
  have "str ''watch?v='' \<noteq> []" by (simp add: str_def)
  with a have "watch_form_id (q @ str ''watch?v='' @ n @ str ''watch?v='' @ w')
      = Inr (takeWhile (\<lambda>x. x \<noteq> 38) n)"
    by (simp add: watch_form_id_cut split_on_head_first del: split_on.simps)
  moreover have "contains (str ''watch?v='') (q @ str ''watch?v='' @ n @ str ''watch?v='' @ w')"
    by (rule contains_middle)
  ultimately show "extract_video_id (q @ str ''watch?v='' @ n @ str ''watch?v='' @ w')
        = Inr (Some (takeWhile (\<lambda>x. x \<noteq> 38) n))"
    using a by (simp add: extract_video_id_def)
qed


theorem extract_video_id_shapes_witness:
  "\<not> contains (str ''youtu.be/'') (str ''https://example.com/video'') \<and>
   \<not> contains (str ''watch?v='') (str ''https://example.com/video'') \<and>
   extract_video_id (str ''https://example.com/video'') = Inr None \<and>
   load_youtube_documents True (\<lambda>video_id. Inl []) (\<lambda>url. Inl [])
       (str ''https://example.com/video'')
     = (None, [StError (str ''Invalid YouTube URL format'')]) \<and>
   \<not> contains (str ''youtu.be/'') (str ''https://'' @ butlast (str ''youtu.be/'')) \<and>
   \<not> contains (str ''youtu.be/'') (str ''ABC123&t=5?x=1'') \<and>
   extract_video_id (str ''https://'' @ str ''youtu.be/'' @ str ''ABC123&t=5?x=1'')
     = Inr (Some (str ''ABC123&t=5'')) \<and>
   \<not> contains (str ''youtu.be/'') (str ''abc/'' @ butlast (str ''youtu.be/'')) \<and>
   extract_video_id
       (str ''https://'' @ str ''youtu.be/'' @ str ''abc/'' @ str ''youtu.be/'' @ str ''x?t=1'')
     = Inr (Some (str ''abc/'')) \<and>
   \<not> contains (str ''youtu.be/'')
       (str ''https://youtube.com/'' @ str ''watch?v='' @ str ''XYZ789?t=5&list=PL1'') \<and>
   \<not> contains (str ''watch?v='') (str ''https://youtube.com/'' @ butlast (str ''watch?v='')) \<and>
   \<not> contains (str ''watch?v='') (str ''XYZ789?t=5&list=PL1'') \<and>
   extract_video_id (str ''https://youtube.com/'' @ str ''watch?v='' @ str ''XYZ789?t=5&list=PL1'')
     = Inr (Some (str ''XYZ789?t=5'')) \<and>
   \<not> contains (str ''youtu.be/'')
       (str ''https://youtube.com/'' @ str ''watch?v='' @ str ''XYZ/'' @ str ''watch?v='' @ str ''Q&t=1'') \<and>
   \<not> contains (str ''watch?v='') (str ''XYZ/'' @ butlast (str ''watch?v='')) \<and>
   extract_video_id
       (str ''https://youtube.com/'' @ str ''watch?v='' @ str ''XYZ/'' @ str ''watch?v='' @ str ''Q&t=1'')
     = Inr (Some (str ''XYZ/''))"
proof -
  have a: "\<not> contains (str ''youtu.be/'') (str ''https://example.com/video'')"
    "\<not> contains (str ''watch?v='') (str ''https://example.com/video'')"
    by (simp_all add: contains_def str_def)
  have b: "\<not> contains (str ''youtu.be/'') (str ''https://'' @ butlast (str ''youtu.be/''))"
    "\<not> contains (str ''youtu.be/'') (str ''ABC123&t=5?x=1'')"
    by (simp_all add: contains_def str_def)
  have b2: "\<not> contains (str ''youtu.be/'') (str ''abc/'' @ butlast (str ''youtu.be/''))"
    by (simp add: contains_def str_def)
  have c: "\<not> contains (str ''youtu.be/'')
       (str ''https://youtube.com/'' @ str ''watch?v='' @ str ''XYZ789?t=5&list=PL1'')"
    "\<not> contains (str ''watch?v='') (str ''https://youtube.com/'' @ butlast (str ''watch?v=''))"
    "\<not> contains (str ''watch?v='') (str ''XYZ789?t=5&list=PL1'')"
    by (simp_all add: contains_def str_def)
  have c2: "\<not> contains (str ''youtu.be/'')
       (str ''https://youtube.com/'' @ str ''watch?v='' @ str ''XYZ/'' @ str ''watch?v='' @ str ''Q&t=1'')"
    "\<not> contains (str ''watch?v='') (str ''XYZ/'' @ butlast (str ''watch?v=''))"
    by (simp_all add: contains_def str_def)
  have t: "takeWhile (\<lambda>x. x \<noteq> 63) (str ''ABC123&t=5?x=1'') = str ''ABC123&t=5''"
    "takeWhile (\<lambda>x. x \<noteq> 63) (str ''abc/'') = str ''abc/''"
    "takeWhile (\<lambda>x. x \<noteq> 38) (str ''XYZ789?t=5&list=PL1'') = str ''XYZ789?t=5''"
    "takeWhile (\<lambda>x. x \<noteq> 38) (str ''XYZ/'') = str ''XYZ/''"
    by (simp_all add: str_def)
  note th = extract_video_id_shapes [where u = "str ''https://example.com/video''"
      and fetch = "\<lambda>video_id. Inl []" and fallback_load = "\<lambda>url. Inl []"
      and p = "str ''https://''" and v = "str ''ABC123&t=5?x=1''" and m = "str ''abc/''"
      and v' = "str ''x?t=1''"
      and q = "str ''https://youtube.com/''" and w = "str ''XYZ789?t=5&list=PL1''"
      and n = "str ''XYZ/''" and w' = "str ''Q&t=1''"]
  from th a have 1: "extract_video_id (str ''https://example.com/video'') = Inr None"
    "load_youtube_documents True (\<lambda>video_id. Inl []) (\<lambda>url. Inl [])
       (str ''https://example.com/video'')
     = (None, [StError (str ''Invalid YouTube URL format'')])"
    by blast+
  from th b have 2: "extract_video_id (str ''https://'' @ str ''youtu.be/'' @ str ''ABC123&t=5?x=1'')
     = Inr (Some (takeWhile (\<lambda>x. x \<noteq> 63) (str ''ABC123&t=5?x=1'')))"
    by blast
  from th b(1) b2 have 3: "extract_video_id
       (str ''https://'' @ str ''youtu.be/'' @ str ''abc/'' @ str ''youtu.be/'' @ str ''x?t=1'')
     = Inr (Some (takeWhile (\<lambda>x. x \<noteq> 63) (str ''abc/'')))"
    by blast
  from th c have 4:
    "extract_video_id (str ''https://youtube.com/'' @ str ''watch?v='' @ str ''XYZ789?t=5&list=PL1'')
     = Inr (Some (takeWhile (\<lambda>x. x \<noteq> 38) (str ''XYZ789?t=5&list=PL1'')))"
    by blast
  from th c(2) c2 have 5:
    "extract_video_id
       (str ''https://youtube.com/'' @ str ''watch?v='' @ str ''XYZ/'' @ str ''watch?v='' @ str ''Q&t=1'')
     = Inr (Some (takeWhile (\<lambda>x. x \<noteq> 38) (str ''XYZ/'')))"
    by blast
  from a b b2 c c2 1 2 [unfolded t] 3 [unfolded t] 4 [unfolded t] 5 [unfolded t]
  show ?thesis by blast
qed

text \<open>
  C3 as the spec states it fails: the identifier does not end at the next "&" or "?"
  whichever comes first. A short-form URL keeps an "&" and what follows it, a watch URL
  keeps a "?" and what follows it.
\<close>

theorem short_form_keeps_ampersand:
  "extract_video_id (str ''https://youtu.be/ABC123&t=5'') = Inr (Some (str ''ABC123&t=5'')) \<and>
   extract_video_id (str ''https://youtube.com/watch?v=XYZ789?t=5'')
     = Inr (Some (str ''XYZ789?t=5''))"
  by (simp add: extract_video_id_def contains_def short_form_id_def watch_form_id_def
      split_item_def py_split_def py_index_def str_def)

text \<open>
  C4. The uploaded bytes are written to the temporary file, and after a successful parse
  the file is gone. The deletion on every exit path fails in the code: after a parse
  that raises, the file is still there with the uploaded bytes, and the loader returns
  None with an error message. The bytes "not a pdf" with a parser that rejects them
  show it.
\<close>

theorem load_pdf_temp_file:
  "snd (load_pdf_documents pdf_load tmp_file_path uploaded_value fs) tmp_file_path
     = (case pdf_load (fs(tmp_file_path \<mapsto> uploaded_value)) tmp_file_path of
          Inr loaded \<Rightarrow> None
        | Inl e \<Rightarrow> Some uploaded_value) \<and>
   snd (load_pdf_documents (\<lambda>fs path. Inl (str ''EOF marker not found''))
          (str ''/tmp/tmpq1w2e3.pdf'') (str ''not a pdf'') Map.empty) (str ''/tmp/tmpq1w2e3.pdf'')
     = Some (str ''not a pdf'') \<and>
   fst (load_pdf_documents (\<lambda>fs path. Inl (str ''EOF marker not found''))
          (str ''/tmp/tmpq1w2e3.pdf'') (str ''not a pdf'') Map.empty)
     = (None, [StError (str ''Error loading PDF: '' @ str ''EOF marker not found'')])"
  by (simp add: load_pdf_documents_def Let_def split: sum.splits)

text \<open>
  C5. When the primary transcript fetch raises and the fallback loader raises too, the
  YouTube loader returns no documents and shows the "Could not fetch YouTube transcript"
  box, whose text holds the first 100 characters of the primary message and the first 100
  characters of the fallback message.
\<close>

theorem youtube_both_fail:
  assumes "extract_video_id youtube_url = Inr (Some video_id)" "video_id \<noteq> []"
    and "fetch video_id = Inl e" "fallback_load youtube_url = Inl fallback_error"
  shows "\<exists>message.
           load_youtube_documents True fetch fallback_load youtube_url
             = (None, [StMarkdown message]) \<and>
           message = no_captions_head @ take 100 e @ str ''... | Fallback: ''
                       @ take 100 fallback_error @ no_captions_tail \<and>
           contains (take 100 e) message \<and>
           contains (take 100 fallback_error) message"
proof -
  let ?m = "no_captions_head @ take 100 e @ str ''... | Fallback: ''
              @ take 100 fallback_error @ no_captions_tail"
  have "load_youtube_documents True fetch fallback_load youtube_url = (None, [StMarkdown ?m])"
    using assms by (simp add: load_youtube_documents_def)
  moreover have "contains (take 100 e) ?m"
    by (rule contains_middle)
  moreover have "contains (take 100 fallback_error) ?m"
    using contains_middle [of "take 100 fallback_error"
        "no_captions_head @ take 100 e @ str ''... | Fallback: ''" no_captions_tail]
    by simp
  ultimately show ?thesis by blast
qed

theorem youtube_both_fail_witness:
  "extract_video_id (str ''https://youtu.be/ABC123?t=5'') = Inr (Some (str ''ABC123'')) \<and>
   str ''ABC123'' \<noteq> [] \<and>
   load_youtube_documents True (\<lambda>video_id. Inl (replicate 150 120))
       (\<lambda>url. Inl (str ''no transcript'')) (str ''https://youtu.be/ABC123?t=5'')
     = (None, [StMarkdown (no_captions_head @ replicate 100 120 @ str ''... | Fallback: ''
                 @ str ''no transcript'' @ no_captions_tail)])"
proof -
  have x: "extract_video_id (str ''https://youtu.be/ABC123?t=5'') = Inr (Some (str ''ABC123''))"
    by (simp add: extract_video_id_def contains_def short_form_id_def split_item_def
        py_split_def py_index_def str_def)
  have n: "str ''ABC123'' \<noteq> []" by (simp add: str_def)
  have t: "take 100 (replicate 150 (120::nat)) = replicate 100 120"
    "take 100 (str ''no transcript'') = str ''no transcript''"
    by (simp_all add: str_def)
  from youtube_both_fail [OF x n, of "\<lambda>video_id. Inl (replicate 150 120)" "replicate 150 120"
      "\<lambda>url. Inl (str ''no transcript'')" "str ''no transcript''"]
  have "load_youtube_documents True (\<lambda>video_id. Inl (replicate 150 120))
       (\<lambda>url. Inl (str ''no transcript'')) (str ''https://youtu.be/ABC123?t=5'')
     = (None, [StMarkdown (no_captions_head @ take 100 (replicate 150 120)
                 @ str ''... | Fallback: '' @ take 100 (str ''no transcript'')
                 @ no_captions_tail)])"
    by auto
  with x n show ?thesis by (simp only: t) simp
qed

text \<open>
  C6. Whatever get_llm returns has temperature 0, no max_tokens and max_retries 2; and
  for every model that the sidebar offers (the production and the preview models)
  get_llm returns such a client, for the id of that model's catalog entry.
\<close>

theorem get_llm_config:
  "(\<forall>cfg. get_llm st = Inr cfg \<longrightarrow>
      temperature cfg = 0 \<and> max_tokens cfg = None \<and> max_retries cfg = 2) \<and>
   (selected_model st \<in> set (production_models @ preview_models) \<longrightarrow>
      (\<exists>m. (selected_model st, m) \<in> set GROQ_MODELS \<and>
         get_llm st = Inr \<lparr>temperature = 0, model = id_str m, max_tokens = None,
                           timeout = None, max_retries = 2\<rparr>))"
proof (intro conjI allI impI)
  fix cfg
  assume "get_llm st = Inr cfg"
  then show "temperature cfg = 0" "max_tokens cfg = None" "max_retries cfg = 2"
    by (auto simp: get_llm_def split: option.splits)
next
  assume "selected_model st \<in> set (production_models @ preview_models)"
  then have "selected_model st \<in> fst ` set GROQ_MODELS" by (rule selectable_is_key)
  then obtain m where m: "map_of GROQ_MODELS (selected_model st) = Some m"
    by (cases "map_of GROQ_MODELS (selected_model st)") (auto simp: map_of_eq_None_iff)
  then have "(selected_model st, m) \<in> set GROQ_MODELS" by (rule map_of_SomeD)
  with m show "\<exists>m. (selected_model st, m) \<in> set GROQ_MODELS \<and>
         get_llm st = Inr \<lparr>temperature = 0, model = id_str m, max_tokens = None,
                           timeout = None, max_retries = 2\<rparr>"
    by (auto simp: get_llm_def)
qed

theorem get_llm_config_witness:
  "selected_model initial_session_state \<in> set (production_models @ preview_models) \<and>
   get_llm initial_session_state =
     Inr \<lparr>temperature = 0, model = str ''llama-3.1-8b-instant'', max_tokens = None,
          timeout = None, max_retries = 2\<rparr>"
proof -
  have s: "selected_model initial_session_state \<in> set (production_models @ preview_models)"
    by (simp add: production_models_eval initial_session_state_def)
  have g: "get_llm initial_session_state =
     Inr \<lparr>temperature = 0, model = str ''llama-3.1-8b-instant'', max_tokens = None,
          timeout = None, max_retries = 2\<rparr>"
    by (simp add: get_llm_def initial_session_state_def GROQ_MODELS_def str_def)
  from get_llm_config [of initial_session_state] s g show ?thesis by blast
qed




text \<open>
  C8. The analytics are functions of the summary text alone: the word count is the
  number of whitespace-separated words of the text (the non-empty pieces between
  whitespace characters), and two session states that hold the same summary text give
  the same word count, character count, reading time, sentence count and paragraph count.
\<close>

theorem word_count_pure:
  "word_count (summary_analytics st) = length (whitespace_words (summary_result st)) \<and>
   (summary_result st' = summary_result st \<longrightarrow> summary_analytics st' = summary_analytics st)"
  by (simp add: summary_analytics_def Let_def py_split_ws_words del: py_split_ws.simps)

theorem word_count_pure_witness:
  "summary_result (initial_session_state\<lparr>summary_result := str ''Hi there. How?'', content_loaded := True\<rparr>)
     = summary_result (initial_session_state\<lparr>summary_result := str ''Hi there. How?''\<rparr>) \<and>
   summary_analytics (initial_session_state\<lparr>summary_result := str ''Hi there. How?'', content_loaded := True\<rparr>)
     = summary_analytics (initial_session_state\<lparr>summary_result := str ''Hi there. How?''\<rparr>) \<and>
   whitespace_words (str ''Hi there. How?'') = [str ''Hi'', str ''there.'', str ''How?''] \<and>
   word_count (summary_analytics (initial_session_state\<lparr>summary_result := str ''Hi there. How?''\<rparr>)) = 3"
proof -
  let ?a = "initial_session_state\<lparr>summary_result := str ''Hi there. How?''\<rparr>"
  let ?b = "initial_session_state\<lparr>summary_result := str ''Hi there. How?'', content_loaded := True\<rparr>"
  have e: "summary_result ?b = summary_result ?a" by simp
  have w: "whitespace_words (str ''Hi there. How?'') = [str ''Hi'', str ''there.'', str ''How?'']"
    by (simp add: whitespace_words_def str_def isspace_def)
  from word_count_pure [of ?a ?b] e
  have "word_count (summary_analytics ?a) = length (whitespace_words (summary_result ?a))"
    and "summary_analytics ?b = summary_analytics ?a" by simp_all
  with e w show ?thesis by simp
qed

text \<open>
  C9. Video-identifier extraction is total: on every string it returns and raises
  neither ValueError nor IndexError. It returns None exactly when the string has
  neither the substring "youtu.be/" nor the substring "watch?v=". When "youtu.be/"
  occurs (also together with "watch?v="), the result is the one of the short-form rule.
\<close>

theorem extract_video_id_total:
  "(\<exists>r. extract_video_id u = Inr r) \<and>
   (extract_video_id u = Inr None \<longleftrightarrow>
      \<not> (\<exists>p q. u = p @ str ''youtu.be/'' @ q) \<and> \<not> (\<exists>p q. u = p @ str ''watch?v='' @ q)) \<and>
   ((\<exists>p q. u = p @ str ''youtu.be/'' @ q) \<and> (\<exists>p q. u = p @ str ''watch?v='' @ q) \<longrightarrow>
      (\<exists>v. short_form_id u = Inr v \<and> extract_video_id u = Inr (Some v)))"
proof -
  consider (short) "contains (str ''youtu.be/'') u"
    | (watch) "\<not> contains (str ''youtu.be/'') u" "contains (str ''watch?v='') u"
    | (neither) "\<not> contains (str ''youtu.be/'') u" "\<not> contains (str ''watch?v='') u"
    by blast
  then show ?thesis
  proof cases
    case short
    from short_form_id_returns [OF short] obtain v where v: "short_form_id u = Inr v" by blast
    then have "extract_video_id u = Inr (Some v)" by (simp add: extract_video_id_def short)
    with v short show ?thesis by (simp add: contains_iff [symmetric])
  next
    case watch
    from watch_form_id_returns [OF watch(2)] obtain v where "watch_form_id u = Inr v" by blast
    then have "extract_video_id u = Inr (Some v)" by (simp add: extract_video_id_def watch)
    with watch show ?thesis by (simp add: contains_iff [symmetric])
  next
    case neither
    then have "extract_video_id u = Inr None" by (simp add: extract_video_id_def)
    with neither show ?thesis by (simp add: contains_iff [symmetric])
  qed
qed

theorem extract_video_id_total_witness:
  "(\<exists>p q. str ''https://youtu.be/watch?v=abc'' = p @ str ''youtu.be/'' @ q) \<and>
   (\<exists>p q. str ''https://youtu.be/watch?v=abc'' = p @ str ''watch?v='' @ q) \<and>
   watch_form_id (str ''https://youtu.be/watch?v=abc'') = Inr (str ''abc'') \<and>
   short_form_id (str ''https://youtu.be/watch?v=abc'') = Inr (str ''watch'') \<and>
   extract_video_id (str ''https://youtu.be/watch?v=abc'') = Inr (Some (str ''watch''))"
proof -
  let ?u = "str ''https://youtu.be/watch?v=abc''"
  have a: "\<exists>p q. ?u = p @ str ''youtu.be/'' @ q"
    by (rule exI [of _ "str ''https://''"], rule exI [of _ "str ''watch?v=abc''"])
      (simp add: str_def)
  have b: "\<exists>p q. ?u = p @ str ''watch?v='' @ q"
    by (rule exI [of _ "str ''https://youtu.be/''"], rule exI [of _ "str ''abc''"])
      (simp add: str_def)
  have w: "watch_form_id ?u = Inr (str ''abc'')"
    by (simp add: watch_form_id_def split_item_def py_split_def py_index_def str_def)
  have s: "short_form_id ?u = Inr (str ''watch'')"
    by (simp add: short_form_id_def split_item_def py_split_def py_index_def str_def)
  from extract_video_id_total [of ?u] a b
  obtain v where "short_form_id ?u = Inr v" "extract_video_id ?u = Inr (Some v)" by blast
  with s have "extract_video_id ?u = Inr (Some (str ''watch''))" by simp
  with a b w s show ?thesis by blast
qed

text \<open>
  C10 (as amended). Under a summary that is shown, the reading time is
  max(1, words // 200) minutes, where words is the number of whitespace-separated words
  of the summary text: it is at least 1 for every text that is not empty, and it is 1
  for every such text of fewer than 400 words. For the empty summary the results block
  is skipped, and no reading time is computed or shown.
\<close>

theorem reading_time_shown:
  "(summary_result st \<noteq> [] \<longrightarrow>
      (\<exists>a. results_analytics st = Some a \<and>
           reading_time a = max 1 (length (whitespace_words (summary_result st)) div 200) \<and>
           1 \<le> reading_time a \<and>
           (length (whitespace_words (summary_result st)) < 400 \<longrightarrow> reading_time a = 1))) \<and>
   (summary_result st = [] \<longrightarrow> results_analytics st = None)"
proof -
  let ?n = "length (whitespace_words (summary_result st))"
  have r: "reading_time (summary_analytics st) = max 1 (?n div 200)"
    by (simp add: summary_analytics_def Let_def py_split_ws_words del: py_split_ws.simps)
  have "?n div 200 < 2" if "?n < 400" using that by (simp add: div_less_iff_less_mult)
  then have "?n < 400 \<longrightarrow> max 1 (?n div 200) = 1" by (auto simp: max_def)
  with r show ?thesis by (simp add: results_analytics_def)
qed

theorem reading_time_shown_witness:
  "summary_result (initial_session_state\<lparr>summary_result := concat (replicate 1000 (str ''word ''))\<rparr>) \<noteq> [] \<and>
   length (whitespace_words (concat (replicate 1000 (str ''word '')))) = 1000 \<and>
   (\<exists>a. results_analytics
          (initial_session_state\<lparr>summary_result := concat (replicate 1000 (str ''word ''))\<rparr>) = Some a \<and>
        reading_time a = 5) \<and>
   summary_result (initial_session_state\<lparr>summary_result := str ''Hi there. How?''\<rparr>) \<noteq> [] \<and>
   length (whitespace_words (str ''Hi there. How?'')) < 400 \<and>
   (\<exists>a. results_analytics (initial_session_state\<lparr>summary_result := str ''Hi there. How?''\<rparr>) = Some a \<and>
        reading_time a = 1) \<and>
   summary_result initial_session_state = [] \<and>
   results_analytics initial_session_state = None"
proof -
  let ?long = "concat (replicate 1000 (str ''word ''))"
  let ?a = "initial_session_state\<lparr>summary_result := ?long\<rparr>"
  let ?b = "initial_session_state\<lparr>summary_result := str ''Hi there. How?''\<rparr>"
  have "?long = str ''word '' @ concat (replicate 999 (str ''word ''))"
    by (simp add: numeral_eq_Suc)
  then have n: "summary_result ?a \<noteq> []" by (simp add: str_def)
  have l: "length (whitespace_words ?long) = 1000" by (simp only: words_replicate length_replicate)
  have m: "summary_result ?b \<noteq> []" by (simp add: str_def)
  have w: "length (whitespace_words (str ''Hi there. How?'')) < 400"
    by (simp add: whitespace_words_def str_def isspace_def)
  have e: "summary_result initial_session_state = []" by (simp add: initial_session_state_def)
  from reading_time_shown [of ?a] n l
  have 1: "\<exists>a. results_analytics ?a = Some a \<and> reading_time a = 5" by auto
  from reading_time_shown [of ?b] m w
  have 2: "\<exists>a. results_analytics ?b = Some a \<and> reading_time a = 1" by auto
  from reading_time_shown [of initial_session_state] e
  have 3: "results_analytics initial_session_state = None" by simp
  from n l 1 m w 2 e 3 show ?thesis by blast
qed

text \<open>
  C10 as the spec states it fails: the empty string is a summary text for which no
  reading time is shown. With an empty \<open>summary_result\<close> the guard of the results block
  is false, and the analytics are not computed.
\<close>

theorem empty_summary_shows_nothing:
  "summary_result (initial_session_state\<lparr>summary_result := str ''''\<rparr>) = [] \<and>
   results_analytics (initial_session_state\<lparr>summary_result := str ''''\<rparr>) = None"
  by (simp add: results_analytics_def str_def)

end
